theory Spec2Isabelle
  imports Main "HOL-Library.Multiset"
begin

section \<open>Data model (src/index.tsx, lines 7-25)\<close>

text \<open>
  A \<open>Blob\<close> is a MIME type together with its bytes. Values read out of the parsed AI
  response are JavaScript values: \<open>JSON.parse\<close> yields null, booleans, numbers, strings,
  arrays and plain objects; \<open>JUndefined\<close> is what reading a missing property gives.
  An object is the list of its own properties (a key is looked up with \<open>map_of\<close>).
\<close>

datatype blob = Blob (blob_type: string) (blob_data: "nat list")

datatype jsval =
    JUndefined
  | JNull
  | JBool bool
  | JNum int
  | JStr string
  | JArr "jsval list"
  | JObj "(string \<times> jsval) list"

text \<open>
  \<open>interface Counsel\<close>. The TypeScript types of \<open>transcription\<close> and \<open>feedback\<close> are
  \<open>string\<close>, but the values stored are whatever the parsed response holds (line 176-177),
  so the fields carry a \<open>jsval\<close>. An optional field is an \<open>option\<close>.
\<close>

record counsel =
  counsel_id :: string
  date :: string
  audio :: "blob option"
  transcription :: jsval
  feedback :: jsval
  reflectionImage :: "string option"
  educationalNotes :: "string option"

text \<open>\<open>interface Student\<close>; the fields \<open>class\<close> and \<open>notes\<close> are \<open>class_label\<close> and \<open>student_notes\<close> here.\<close>

record student =
  student_id :: string
  class_label :: string
  number :: string
  name :: string
  mbti :: string
  student_notes :: string
  counsels :: "counsel list"

text \<open>\<open>Omit<Student, 'id' | 'counsels'>\<close>: the five form fields of the register view.\<close>

record form_data =
  form_class :: string
  form_number :: string
  form_name :: string
  form_mbti :: string
  form_notes :: string

section \<open>Identifiers: \<open>Date.now().toString()\<close> (lines 56 and 173)\<close>

text \<open>
  \<open>Date.now()\<close> is a reading of the wall clock in milliseconds, an integer supplied by
  the environment; \<open>toString\<close> renders it in decimal, with a leading minus sign for a
  negative number.
\<close>

definition digit_char :: "nat \<Rightarrow> char" where
  "digit_char d = char_of (48 + d)"

fun digits :: "nat \<Rightarrow> string" where
  "digits n = (if n < 10 then [digit_char n] else digits (n div 10) @ [digit_char (n mod 10)])"

declare digits.simps [simp del]

definition toString :: "int \<Rightarrow> string" where
  "toString i = (if i < 0 then CHR ''-'' # digits (nat (- i)) else digits (nat i))"

text \<open>Reading an identifier back as a number, the order in which identifiers are compared.\<close>

definition digits_value :: "string \<Rightarrow> nat" where
  "digits_value cs = foldl (\<lambda>acc c. 10 * acc + (of_char c - 48)) 0 cs"

definition idNumber :: "string \<Rightarrow> int" where
  "idNumber cs = (case cs of
      [] \<Rightarrow> 0
    | c # rest \<Rightarrow> if c = CHR ''-'' then - int (digits_value rest) else int (digits_value cs))"

section \<open>Sorting (\<open>Array.prototype.sort\<close> with a comparator, lines 59 and 66)\<close>

text \<open>
  \<open>localeCompare\<close> is a native function; it is a parameter \<open>cmp\<close> of the model, returning
  a negative number, zero or a positive number. \<open>Array.prototype.sort\<close> is stable, and for
  a consistent comparator its result is the stable sorted rearrangement of the array: here
  insertion from the right, where an element goes before the first element it does not
  exceed.
\<close>

definition consistent :: "('a \<Rightarrow> 'a \<Rightarrow> int) \<Rightarrow> bool" where
  "consistent cmp \<longleftrightarrow>
     (\<forall>a. cmp a a = 0) \<and>
     (\<forall>a b. cmp a b < 0 \<longleftrightarrow> 0 < cmp b a) \<and>
     (\<forall>a b c. cmp a b \<le> 0 \<and> cmp b c \<le> 0 \<longrightarrow> cmp a c \<le> 0)"

fun insert_sorted :: "('a \<Rightarrow> 'a \<Rightarrow> int) \<Rightarrow> 'a \<Rightarrow> 'a list \<Rightarrow> 'a list" where
  "insert_sorted c x [] = [x]"
| "insert_sorted c x (y # ys) = (if c x y \<le> 0 then x # y # ys else y # insert_sorted c x ys)"

fun array_sort :: "('a \<Rightarrow> 'a \<Rightarrow> int) \<Rightarrow> 'a list \<Rightarrow> 'a list" where
  "array_sort c [] = []"
| "array_sort c (x # xs) = insert_sorted c x (array_sort c xs)"

text \<open>The comparison by UTF-16 code units, one consistent comparator on strings.\<close>

fun codeUnitCompare :: "string \<Rightarrow> string \<Rightarrow> int" where
  "codeUnitCompare [] [] = 0"
| "codeUnitCompare [] (y # ys) = - 1"
| "codeUnitCompare (x # xs) [] = 1"
| "codeUnitCompare (x # xs) (y # ys) =
     (if (of_char x :: nat) < of_char y then - 1
      else if (of_char y :: nat) < of_char x then 1
      else codeUnitCompare xs ys)"

section \<open>Roster operations of \<open>App\<close>\<close>

text \<open>The key \<open>`${a.class}-${a.number}`\<close> and the comparator given to \<open>sort\<close>.\<close>

definition sortKey :: "student \<Rightarrow> string" where
  "sortKey s = class_label s @ ''-'' @ number s"

definition compareStudents :: "(string \<Rightarrow> string \<Rightarrow> int) \<Rightarrow> student \<Rightarrow> student \<Rightarrow> int" where
  "compareStudents cmp a b = cmp (sortKey a) (sortKey b)"

text \<open>
  \<open>handleAddStudent\<close> (lines 53-61), as the update it gives to \<open>setStudents\<close>; \<open>now\<close> is
  the value of \<open>Date.now()\<close>. The alert that follows changes no state.
\<close>

definition newStudent :: "int \<Rightarrow> form_data \<Rightarrow> student" where
  "newStudent now f =
     \<lparr> student_id = toString now,
       class_label = form_class f, number = form_number f, name = form_name f,
       mbti = form_mbti f, student_notes = form_notes f,
       counsels = [] \<rparr>"

definition handleAddStudent ::
  "(string \<Rightarrow> string \<Rightarrow> int) \<Rightarrow> int \<Rightarrow> form_data \<Rightarrow> student list \<Rightarrow> student list" where
  "handleAddStudent cmp now f prev = array_sort (compareStudents cmp) (prev @ [newStudent now f])"

text \<open>\<open>handleUpdateStudent\<close> (lines 63-69).\<close>

definition handleUpdateStudent ::
  "(string \<Rightarrow> string \<Rightarrow> int) \<Rightarrow> student \<Rightarrow> student list \<Rightarrow> student list" where
  "handleUpdateStudent cmp studentToUpdate prev =
     array_sort (compareStudents cmp)
       (map (\<lambda>s. if student_id s = student_id studentToUpdate then studentToUpdate else s) prev)"

text \<open>The update of lines 180-184: the new counsel goes in front of the student's counsels.\<close>

definition prependSession :: "string \<Rightarrow> counsel \<Rightarrow> student list \<Rightarrow> student list" where
  "prependSession selectedId newCounsel prev =
     map (\<lambda>s. if student_id s = selectedId
               then s\<lparr>counsels := newCounsel # counsels s\<rparr> else s) prev"

text \<open>
  \<open>handleSaveEducationData\<close> (lines 195-210). \<open>image || undefined\<close> is absent for
  \<open>null\<close> and for the empty string.
\<close>

definition orUndefined :: "string option \<Rightarrow> string option" where
  "orUndefined v = (case v of None \<Rightarrow> None | Some x \<Rightarrow> if x = [] then None else Some x)"

definition patchCounsel :: "string \<Rightarrow> string option \<Rightarrow> string \<Rightarrow> counsel \<Rightarrow> counsel" where
  "patchCounsel counselId img nts c =
     (if counsel_id c \<noteq> counselId then c
      else c\<lparr>reflectionImage := orUndefined img, educationalNotes := Some nts\<rparr>)"

definition handleSaveEducationData ::
  "string \<Rightarrow> string \<Rightarrow> string option \<Rightarrow> string \<Rightarrow> student list \<Rightarrow> student list" where
  "handleSaveEducationData studentId counselId img nts prev =
     map (\<lambda>s. if student_id s \<noteq> studentId then s
               else s\<lparr>counsels := map (patchCounsel counselId img nts) (counsels s)\<rparr>) prev"

section \<open>State of \<open>App\<close>\<close>

text \<open>
  The \<open>useState\<close> cells and the two \<open>useRef\<close> cells of \<open>App\<close> (lines 30-49).
  \<open>recorders\<close> is the store of the \<open>MediaRecorder\<close> objects created so far, each with
  its \<open>state\<close> and whether the tracks of its stream still run; \<open>mediaRecorder\<close> is the
  address held by \<open>mediaRecorder.current\<close>. \<open>pause()\<close> is never called, so a recorder
  is inactive or recording.
\<close>

datatype recording_state = Inactive | Recording

record media_recorder =
  recorder_state :: recording_state
  stream_live :: bool

record app =
  students :: "student list"
  selectedStudentId :: "string option"
  expandedCounselId :: "string option"
  isRecording :: bool
  audioBlob :: "blob option"
  isLoading :: bool
  recorders :: "media_recorder list"
  mediaRecorder :: "nat option"
  audioChunks :: "blob list"

definition initialApp :: app where
  "initialApp =
     \<lparr> students = [], selectedStudentId = None, expandedCounselId = None,
       isRecording = False, audioBlob = None, isLoading = False,
       recorders = [], mediaRecorder = None, audioChunks = [] \<rparr>"

section \<open>Session recorder (lines 71-101)\<close>

text \<open>
  \<open>startRecording\<close> is an async function whose first statement awaits
  \<open>getUserMedia\<close>: a call changes nothing until the promise settles. The definition is
  the rest of the body, run when it settles: \<open>getUserMedia\<close> either grants a stream or
  throws; the \<open>catch\<close> logs and alerts and changes no state. With a stream, a new
  recorder is created and started, \<open>mediaRecorder.current\<close> and \<open>audioChunks.current\<close>
  are overwritten, and only then \<open>isRecording\<close> becomes true.
\<close>

datatype media_access = Granted | Denied

definition startRecording :: "media_access \<Rightarrow> app \<Rightarrow> app" where
  "startRecording access s =
     (case access of
        Denied \<Rightarrow> s
      | Granted \<Rightarrow>
          s\<lparr> recorders := recorders s @ [\<lparr>recorder_state = Recording, stream_live = True\<rparr>],
             mediaRecorder := Some (length (recorders s)),
             audioChunks := [],
             isRecording := True,
             audioBlob := None \<rparr>)"

text \<open>
  \<open>stopRecording\<close>: only when the current recorder is recording. \<open>stop()\<close> delivers the
  recorded data to \<open>ondataavailable\<close> (pushed on \<open>audioChunks.current\<close>) and then runs
  \<open>onstop\<close>, which builds the blob of type audio/webm from the chunks and stops the
  tracks of the stream; the data recorded is the argument \<open>recorded\<close>.
\<close>

definition stopRecording :: "blob \<Rightarrow> app \<Rightarrow> app" where
  "stopRecording recorded s =
     (case mediaRecorder s of
        None \<Rightarrow> s
      | Some i \<Rightarrow>
          if i < length (recorders s) \<and> recorder_state (recorders s ! i) = Recording
          then s\<lparr> recorders := (recorders s)[i := \<lparr>recorder_state = Inactive, stream_live = False\<rparr>],
                  audioChunks := audioChunks s @ [recorded],
                  audioBlob := Some (Blob ''audio/webm''
                                  (concat (map blob_data (audioChunks s @ [recorded])))),
                  isRecording := False \<rparr>
          else s)"

definition activeCaptures :: "app \<Rightarrow> nat" where
  "activeCaptures s = length (filter (\<lambda>r. recorder_state r = Recording) (recorders s))"

text \<open>\<open>selectedStudent\<close> of \<open>App\<close> (line 212).\<close>

definition selectedStudent :: "app \<Rightarrow> student option" where
  "selectedStudent s =
     (case selectedStudentId s of
        None \<Rightarrow> None
      | Some i \<Rightarrow> find (\<lambda>x. student_id x = i) (students s))"

text \<open>
  The controls of the log view (lines 260-273) are rendered for a selected student. The
  start button is rendered while \<open>isRecording\<close> is false and disabled while
  \<open>isLoading\<close>; the stop button is rendered while \<open>isRecording\<close> is true.
\<close>

definition startButtonEnabled :: "app \<Rightarrow> bool" where
  "startButtonEnabled s \<longleftrightarrow> selectedStudent s \<noteq> None \<and> \<not> isRecording s \<and> \<not> isLoading s"

definition stopButtonShown :: "app \<Rightarrow> bool" where
  "stopButtonShown s \<longleftrightarrow> selectedStudent s \<noteq> None \<and> isRecording s"

text \<open>
  The states the user reaches by registering students with a valid form, selecting a
  student in the log view and pressing the two recorder buttons. The number beside the
  state counts the calls of \<open>startRecording\<close> still waiting for \<open>getUserMedia\<close>: a click
  on the start button adds one and changes no state, and each waiting call later runs
  the rest of its body on the state of that moment.
\<close>

inductive ui_reachable :: "(string \<Rightarrow> string \<Rightarrow> int) \<Rightarrow> app \<Rightarrow> nat \<Rightarrow> bool"
  for cmp :: "string \<Rightarrow> string \<Rightarrow> int" where
  ui_init: "ui_reachable cmp initialApp 0"
| ui_register:
    "ui_reachable cmp s n \<Longrightarrow> form_class f \<noteq> [] \<Longrightarrow> form_number f \<noteq> [] \<Longrightarrow> form_name f \<noteq> [] \<Longrightarrow>
     ui_reachable cmp (s\<lparr>students := handleAddStudent cmp now f (students s)\<rparr>) n"
| ui_select:
    "ui_reachable cmp s n \<Longrightarrow> st \<in> set (students s) \<Longrightarrow>
     ui_reachable cmp (s\<lparr>selectedStudentId := Some (student_id st), expandedCounselId := None\<rparr>) n"
| ui_click_start:
    "ui_reachable cmp s n \<Longrightarrow> startButtonEnabled s \<Longrightarrow> ui_reachable cmp s (Suc n)"
| ui_resume_start:
    "ui_reachable cmp s (Suc n) \<Longrightarrow> ui_reachable cmp (startRecording access s) n"
| ui_click_stop:
    "ui_reachable cmp s n \<Longrightarrow> stopButtonShown s \<Longrightarrow> ui_reachable cmp (stopRecording recorded s) n"

section \<open>Transcription pipeline (lines 118-193)\<close>

text \<open>
  What the environment does during one run: encoding the blob fails, the request fails,
  \<open>JSON.parse\<close> throws on the response text, or it returns a value.
\<close>

datatype ai_outcome = EncodeFailed | RequestFailed | Unparsable | Parsed jsval

datatype js_error = StudentNotFound | EncodeError | RequestError | SyntaxError | TypeError

datatype alert = AnalysisFailed

text \<open>
  Reading the property \<open>transcription\<close> or \<open>feedback\<close> of the parsed value: a
  \<open>TypeError\<close> on \<open>null\<close>, the own property of an object, and \<open>undefined\<close> otherwise
  (no prototype of a primitive or an array has a property of either name).
\<close>

fun getProperty :: "jsval \<Rightarrow> string \<Rightarrow> js_error + jsval" where
  "getProperty JNull k = Inl TypeError"
| "getProperty JUndefined k = Inl TypeError"
| "getProperty (JObj ps) k = Inr (case map_of ps k of None \<Rightarrow> JUndefined | Some v \<Rightarrow> v)"
| "getProperty v k = Inr JUndefined"

definition newCounsel :: "int \<Rightarrow> string \<Rightarrow> blob \<Rightarrow> jsval \<Rightarrow> jsval \<Rightarrow> counsel" where
  "newCounsel now localeString b t f =
     \<lparr> counsel_id = toString now, date = localeString, audio = Some b,
       transcription = t, feedback = f,
       reflectionImage = None, educationalNotes = None \<rparr>"

text \<open>The body of the \<open>try\<close> block: \<open>Inl\<close> is the exception thrown.\<close>

definition pipelineBody ::
  "ai_outcome \<Rightarrow> int \<Rightarrow> string \<Rightarrow> blob \<Rightarrow> string \<Rightarrow> app \<Rightarrow> js_error + app" where
  "pipelineBody outcome now localeString b sid s =
     (case find (\<lambda>x. student_id x = sid) (students s) of
        None \<Rightarrow> Inl StudentNotFound
      | Some st \<Rightarrow>
          (case outcome of
             EncodeFailed \<Rightarrow> Inl EncodeError
           | RequestFailed \<Rightarrow> Inl RequestError
           | Unparsable \<Rightarrow> Inl SyntaxError
           | Parsed j \<Rightarrow>
               (case getProperty j ''transcription'' of
                  Inl e \<Rightarrow> Inl e
                | Inr t \<Rightarrow>
                    (case getProperty j ''feedback'' of
                       Inl e \<Rightarrow> Inl e
                     | Inr f \<Rightarrow>
                         Inr (s\<lparr> students :=
                                   prependSession sid (newCounsel now localeString b t f) (students s),
                                 audioBlob := None \<rparr>)))))"

text \<open>
  \<open>handleTranscribeAndFeedback\<close>: the guard of line 119 (\<open>null\<close> and the empty string are
  falsy), the \<open>try\<close> block, the \<open>catch\<close> that alerts, and \<open>finally\<close>. The result is the
  new state and the alerts shown. The run is taken as one step.
\<close>

definition handleTranscribeAndFeedback ::
  "ai_outcome \<Rightarrow> int \<Rightarrow> string \<Rightarrow> app \<Rightarrow> app \<times> alert list" where
  "handleTranscribeAndFeedback outcome now localeString s =
     (case audioBlob s of
        None \<Rightarrow> (s, [])
      | Some b \<Rightarrow>
          (case selectedStudentId s of
             None \<Rightarrow> (s, [])
           | Some sid \<Rightarrow>
               if sid = [] then (s, [])
               else (case pipelineBody outcome now localeString b sid s of
                       Inl e \<Rightarrow> (s\<lparr>isLoading := False\<rparr>, [AnalysisFailed])
                     | Inr s' \<Rightarrow> (s'\<lparr>isLoading := False\<rparr>, []))))"

section \<open>Register view (lines 324-380)\<close>

record register_view =
  formData :: form_data
  editingStudentId :: "string option"

definition emptyForm :: form_data where
  "emptyForm = \<lparr> form_class = [], form_number = [], form_name = [], form_mbti = [], form_notes = [] \<rparr>"

definition editingStudent :: "student list \<Rightarrow> register_view \<Rightarrow> student option" where
  "editingStudent studs v =
     (case editingStudentId v of
        None \<Rightarrow> None
      | Some i \<Rightarrow> find (\<lambda>s. student_id s = i) studs)"

definition handleStudentSelect :: "student list \<Rightarrow> string \<Rightarrow> register_view \<Rightarrow> register_view" where
  "handleStudentSelect studs studentId v =
     (case find (\<lambda>s. student_id s = studentId) studs of
        None \<Rightarrow> v
      | Some e \<Rightarrow>
          \<lparr> formData = \<lparr> form_class = class_label e, form_number = number e, form_name = name e,
                         form_mbti = mbti e, form_notes = student_notes e \<rparr>,
            editingStudentId = Some studentId \<rparr>)"

definition handleCancelEdit :: "register_view \<Rightarrow> register_view" where
  "handleCancelEdit v = \<lparr> formData = emptyForm, editingStudentId = None \<rparr>"

text \<open>\<open>{...editingStudent, ...formData}\<close>: the five keys of the form overwrite.\<close>

definition mergeForm :: "student \<Rightarrow> form_data \<Rightarrow> student" where
  "mergeForm e f =
     e\<lparr> class_label := form_class f, number := form_number f, name := form_name f,
        mbti := form_mbti f, student_notes := form_notes f \<rparr>"

definition handleSubmit ::
  "(string \<Rightarrow> string \<Rightarrow> int) \<Rightarrow> int \<Rightarrow> student list \<Rightarrow> register_view \<Rightarrow> student list \<times> register_view" where
  "handleSubmit cmp now studs v =
     (if form_class (formData v) = [] \<or> form_number (formData v) = [] \<or> form_name (formData v) = []
      then (studs, v)
      else ((case editingStudent studs v of
               Some e \<Rightarrow> handleUpdateStudent cmp (mergeForm e (formData v)) studs
             | None \<Rightarrow> handleAddStudent cmp now (formData v) studs),
            handleCancelEdit v))"

section \<open>Education view (lines 437-495)\<close>

record education_view =
  ev_selectedStudentId :: "string option"
  selectedCounselId :: "string option"
  form_image :: "string option"
  ev_notes :: string
  isModified :: bool

definition selectedCounsel :: "student list \<Rightarrow> education_view \<Rightarrow> counsel option" where
  "selectedCounsel studs v =
     (case ev_selectedStudentId v of
        None \<Rightarrow> None
      | Some sid \<Rightarrow>
          (case find (\<lambda>s. student_id s = sid) studs of
             None \<Rightarrow> None
           | Some st \<Rightarrow>
               (case selectedCounselId v of
                  None \<Rightarrow> None
                | Some cid \<Rightarrow> find (\<lambda>c. counsel_id c = cid) (counsels st))))"


definition handleStudentClick :: "string option \<Rightarrow> education_view \<Rightarrow> education_view" where
  "handleStudentClick studentId v = v\<lparr> ev_selectedStudentId := studentId, selectedCounselId := None \<rparr>"

definition handleCounselClick :: "string \<Rightarrow> education_view \<Rightarrow> education_view" where
  "handleCounselClick counselId v = v\<lparr> selectedCounselId := Some counselId \<rparr>"




section \<open>Notions the properties are stated with\<close>

text \<open>The roster is sorted by the comparator the code gives to \<open>sort\<close>.\<close>

definition roster_sorted :: "(string \<Rightarrow> string \<Rightarrow> int) \<Rightarrow> student list \<Rightarrow> bool" where
  "roster_sorted cmp ss = sorted_wrt (\<lambda>a b. compareStudents cmp a b \<le> 0) ss"

text \<open>
  The order of the specification, in its words: by the pair (class label, number), the
  class compared first and the number when the classes compare equal.
\<close>

definition spec_pairCompare :: "(string \<Rightarrow> string \<Rightarrow> int) \<Rightarrow> student \<Rightarrow> student \<Rightarrow> int" where
  "spec_pairCompare cmp a b =
     (if cmp (class_label a) (class_label b) \<noteq> 0 then cmp (class_label a) (class_label b)
      else cmp (number a) (number b))"

definition spec_sorted_by_pair :: "(string \<Rightarrow> string \<Rightarrow> int) \<Rightarrow> student list \<Rightarrow> bool" where
  "spec_sorted_by_pair cmp ss = sorted_wrt (\<lambda>a b. spec_pairCompare cmp a b \<le> 0) ss"

text \<open>The rosters the four mutating operations of \<open>App\<close> can produce from the empty one.\<close>

inductive roster_reachable :: "(string \<Rightarrow> string \<Rightarrow> int) \<Rightarrow> student list \<Rightarrow> bool"
  for cmp :: "string \<Rightarrow> string \<Rightarrow> int" where
  reach_empty: "roster_reachable cmp []"
| reach_add: "roster_reachable cmp ss \<Longrightarrow> roster_reachable cmp (handleAddStudent cmp now f ss)"
| reach_update: "roster_reachable cmp ss \<Longrightarrow> roster_reachable cmp (handleUpdateStudent cmp st ss)"
| reach_prepend: "roster_reachable cmp ss \<Longrightarrow> roster_reachable cmp (prependSession sid c ss)"
| reach_patch:
    "roster_reachable cmp ss \<Longrightarrow> roster_reachable cmp (handleSaveEducationData sid cid img nts ss)"


section \<open>Sorting and identifier lemmas\<close>

lemma mset_insert_sorted: "mset (insert_sorted c x xs) = add_mset x (mset xs)"
  by (induction xs) auto

lemma mset_array_sort: "mset (array_sort c xs) = mset xs"
  by (induction xs) (auto simp: mset_insert_sorted)

lemma set_insert_sorted: "set (insert_sorted c x xs) = insert x (set xs)"
  by (induction xs) auto

lemma consistent_total: "consistent c \<Longrightarrow> \<not> c x y \<le> 0 \<Longrightarrow> c y x \<le> 0"
  unfolding consistent_def by (metis not_le order_less_imp_le)

lemma consistent_trans: "consistent c \<Longrightarrow> c x y \<le> 0 \<Longrightarrow> c y z \<le> 0 \<Longrightarrow> c x z \<le> 0"
  unfolding consistent_def by blast

lemma sorted_insert_sorted:
  assumes "consistent c" and "sorted_wrt (\<lambda>a b. c a b \<le> 0) xs"
  shows "sorted_wrt (\<lambda>a b. c a b \<le> 0) (insert_sorted c x xs)"
  using assms(2)
proof (induction xs)
  case Nil
  then show ?case by simp
next
  case (Cons y ys)
  show ?case
  proof (cases "c x y \<le> 0")
    case True
    with Cons.prems assms(1) show ?thesis
      by (auto intro: consistent_trans)
  next
    case False
    then have "c y x \<le> 0" using assms(1) by (rule consistent_total[rotated])
    with False Cons show ?thesis
      by (auto simp: set_insert_sorted)
  qed
qed

lemma sorted_array_sort:
  "consistent c \<Longrightarrow> sorted_wrt (\<lambda>a b. c a b \<le> 0) (array_sort c xs)"
  by (induction xs) (auto intro: sorted_insert_sorted)

lemma array_sort_sorted_id:
  "sorted_wrt (\<lambda>a b. c a b \<le> 0) xs \<Longrightarrow> array_sort c xs = xs"
proof (induction xs)
  case Nil
  then show ?case by simp
next
  case (Cons x xs)
  then have "array_sort c xs = xs" by simp
  moreover have "insert_sorted c x xs = x # xs"
    using Cons.prems by (cases xs) auto
  ultimately show ?case by simp
qed

text \<open>
  The sort is stable: the elements that compare equal to a given one keep their order.
  A sorted, stable rearrangement is unique, so \<open>array_sort\<close> is the result of
  \<open>Array.prototype.sort\<close> whatever algorithm the engine runs.
\<close>

lemma consistent_zero_sym: "consistent c \<Longrightarrow> c z x = 0 \<Longrightarrow> c x z = 0"
  unfolding consistent_def by (metis less_irrefl linorder_neqE_linordered_idom)

lemma filter_insert_sorted:
  assumes "consistent c"
  shows "filter (\<lambda>y. c z y = 0) (insert_sorted c x xs)
         = (if c z x = 0 then x # filter (\<lambda>y. c z y = 0) xs else filter (\<lambda>y. c z y = 0) xs)"
proof (induction xs)
  case Nil
  show ?case by simp
next
  case (Cons y ys)
  show ?case
  proof (cases "c x y \<le> 0")
    case True
    then show ?thesis by simp
  next
    case False
    have "\<not> (c z x = 0 \<and> c z y = 0)"
    proof
      assume h: "c z x = 0 \<and> c z y = 0"
      then have "c x z \<le> 0" using assms consistent_zero_sym by fastforce
      moreover have "c z y \<le> 0" using h by simp
      ultimately have "c x y \<le> 0" using assms by (rule consistent_trans [rotated])
      with False show False by simp
    qed
    with False Cons show ?thesis by auto
  qed
qed

lemma array_sort_stable:
  "consistent c \<Longrightarrow> filter (\<lambda>y. c z y = 0) (array_sort c xs) = filter (\<lambda>y. c z y = 0) xs"
  by (induction xs) (simp_all add: filter_insert_sorted)

lemma consistent_compareStudents: "consistent cmp \<Longrightarrow> consistent (compareStudents cmp)"
  unfolding consistent_def compareStudents_def by blast

lemma codeUnitCompare_refl: "codeUnitCompare a a = 0"
  by (induction a) auto

lemma codeUnitCompare_sym: "codeUnitCompare a b < 0 \<longleftrightarrow> 0 < codeUnitCompare b a"
  by (induction a b rule: codeUnitCompare.induct) auto

lemma codeUnitCompare_Nil_le: "codeUnitCompare [] b \<le> 0"
  by (cases b) auto

lemma codeUnitCompare_Cons_le:
  "codeUnitCompare (x # xs) (y # ys) \<le> 0 \<longleftrightarrow>
     (of_char x :: nat) < of_char y \<or> ((of_char x :: nat) = of_char y \<and> codeUnitCompare xs ys \<le> 0)"
  by auto

lemma codeUnitCompare_trans:
  "codeUnitCompare a b \<le> 0 \<Longrightarrow> codeUnitCompare b c \<le> 0 \<Longrightarrow> codeUnitCompare a c \<le> 0"
proof (induction a arbitrary: b c)
  case Nil
  show ?case by (rule codeUnitCompare_Nil_le)
next
  case (Cons x xs)
  from Cons.prems(1) obtain y ys where b: "b = y # ys"
    by (cases b) auto
  from Cons.prems(2) b obtain z zs where c: "c = z # zs"
    by (cases c) auto
  from Cons.prems(1) b have 1:
    "(of_char x :: nat) < of_char y \<or> ((of_char x :: nat) = of_char y \<and> codeUnitCompare xs ys \<le> 0)"
    by (simp only: codeUnitCompare_Cons_le)
  from Cons.prems(2) b c have 2:
    "(of_char y :: nat) < of_char z \<or> ((of_char y :: nat) = of_char z \<and> codeUnitCompare ys zs \<le> 0)"
    by (simp only: codeUnitCompare_Cons_le)
  have "(of_char x :: nat) < of_char z \<or> ((of_char x :: nat) = of_char z \<and> codeUnitCompare xs zs \<le> 0)"
    using 1 2 Cons.IH [of ys zs] by (metis less_trans)
  then show ?case
    unfolding c by (simp only: codeUnitCompare_Cons_le)
qed

lemma consistent_codeUnitCompare: "consistent codeUnitCompare"
  unfolding consistent_def
  using codeUnitCompare_refl codeUnitCompare_sym codeUnitCompare_trans by blast

lemma of_char_digit_char: "d < 10 \<Longrightarrow> of_char (digit_char d) = 48 + d"
  by (simp add: digit_char_def)

lemma digits_value_snoc:
  "digits_value (cs @ [c]) = 10 * digits_value cs + (of_char c - 48)"
  by (simp add: digits_value_def)

lemma digits_value_digits: "digits_value (digits n) = n"
proof (induction n rule: digits.induct)
  case (1 n)
  show ?case
  proof (cases "n < 10")
    case True
    then show ?thesis
      by (subst digits.simps) (simp add: digits_value_def of_char_digit_char)
  next
    case False
    then have "digits_value (digits (n div 10)) = n div 10" using 1 by simp
    with False show ?thesis
      by (subst digits.simps) (simp add: digits_value_snoc of_char_digit_char)
  qed
qed

lemma digits_chars: "c \<in> set (digits n) \<Longrightarrow> 48 \<le> (of_char c :: nat)"
proof (induction n rule: digits.induct)
  case (1 n)
  then show ?case
    by (subst (asm) (2) digits.simps) (auto simp: of_char_digit_char split: if_splits)
qed

lemma digits_nonempty: "digits n \<noteq> []"
  by (subst digits.simps) simp

lemma hd_digits_not_minus: "hd (digits n) \<noteq> CHR ''-''"
proof
  assume h: "hd (digits n) = CHR ''-''"
  have "hd (digits n) \<in> set (digits n)" using digits_nonempty by simp
  then have "48 \<le> (of_char (hd (digits n)) :: nat)" by (rule digits_chars)
  with h show False by simp
qed

lemma idNumber_toString: "idNumber (toString t) = t"
proof (cases "t < 0")
  case True
  then show ?thesis
    by (simp add: idNumber_def toString_def digits_value_digits)
next
  case False
  obtain c cs where e: "digits (nat t) = c # cs"
    using digits_nonempty by (cases "digits (nat t)") auto
  then have "c \<noteq> CHR ''-''" using hd_digits_not_minus[of "nat t"] by simp
  moreover have "digits_value (c # cs) = nat t" using digits_value_digits[of "nat t"] e by simp
  ultimately show ?thesis using False e
    by (simp add: idNumber_def toString_def)
qed

lemma toString_inj: "toString t1 = toString t2 \<Longrightarrow> t1 = t2"
  by (metis idNumber_toString)

section \<open>The roster stays sorted by the key of the code\<close>

lemma sorted_wrt_map_same_key:
  assumes "\<And>x. sortKey (g x) = sortKey x"
  shows "roster_sorted cmp (map g ss) = roster_sorted cmp ss"
  by (simp add: roster_sorted_def sorted_wrt_map compareStudents_def assms)

lemma roster_sorted_handleAddStudent:
  "consistent cmp \<Longrightarrow> roster_sorted cmp (handleAddStudent cmp now f prev)"
  unfolding roster_sorted_def handleAddStudent_def
  by (rule sorted_array_sort) (rule consistent_compareStudents)

lemma roster_sorted_handleUpdateStudent:
  "consistent cmp \<Longrightarrow> roster_sorted cmp (handleUpdateStudent cmp st prev)"
  unfolding roster_sorted_def handleUpdateStudent_def
  by (rule sorted_array_sort) (rule consistent_compareStudents)

lemma roster_sorted_prependSession:
  "roster_sorted cmp (prependSession sid c ss) = roster_sorted cmp ss"
  unfolding prependSession_def
  by (rule sorted_wrt_map_same_key) (simp add: sortKey_def)

lemma roster_sorted_handleSaveEducationData:
  "roster_sorted cmp (handleSaveEducationData sid cid img nts ss) = roster_sorted cmp ss"
  unfolding handleSaveEducationData_def
  by (rule sorted_wrt_map_same_key) (simp add: sortKey_def)

lemma roster_reachable_sorted:
  assumes "consistent cmp" and "roster_reachable cmp ss"
  shows "roster_sorted cmp ss"
  using assms(2)
proof (induction rule: roster_reachable.induct)
  case reach_empty
  show ?case by (simp add: roster_sorted_def)
next
  case (reach_add ss now f)
  show ?case using assms(1) by (rule roster_sorted_handleAddStudent)
next
  case (reach_update ss st)
  show ?case using assms(1) by (rule roster_sorted_handleUpdateStudent)
next
  case (reach_prepend ss sid c)
  then show ?case by (simp only: roster_sorted_prependSession)
next
  case (reach_patch ss sid cid img nts)
  then show ?case by (simp only: roster_sorted_handleSaveEducationData)
qed

lemma map_replace_absent:
  "student_id st \<notin> student_id ` set ss \<Longrightarrow>
   map (\<lambda>s. if student_id s = student_id st then st else s) ss = ss"
  by (induction ss) auto

lemma toString_1: "toString 1 = ''1''"
  by code_simp

section \<open>Claims\<close>

text \<open>
  C4, as amended. After every \<open>handleAddStudent\<close> and every \<open>handleUpdateStudent\<close>, from
  any roster and so after any sequence of such calls, the roster is sorted by the joined
  key \<open>class-number\<close> under the comparator given to \<open>sort\<close>, for every consistent
  comparator. It is not sorted by the pair (class label, number): the counterexample
  registers class \<open>1\<close> number \<open>5\<close> and then class \<open>1 \<close> (with a trailing space) number
  \<open>2\<close>; the joined keys order the second student first, the pairs the first.
\<close>

theorem sorted_after_register_and_update:
  assumes "consistent cmp"
  shows "roster_sorted cmp (handleAddStudent cmp now f prev) \<and>
         roster_sorted cmp (handleUpdateStudent cmp st prev)"
  using assms roster_sorted_handleAddStudent roster_sorted_handleUpdateStudent by blast

theorem sorted_after_register_and_update_witness:
  "consistent codeUnitCompare \<and>
   roster_sorted codeUnitCompare
     (handleAddStudent codeUnitCompare 2
        \<lparr>form_class = ''1'', form_number = ''5'', form_name = ''Lee'', form_mbti = [], form_notes = []\<rparr>
        (handleAddStudent codeUnitCompare 1
           \<lparr>form_class = ''3'', form_number = ''12'', form_name = ''Kim'', form_mbti = [], form_notes = []\<rparr>
           [])) \<and>
   map name
     (handleAddStudent codeUnitCompare 2
        \<lparr>form_class = ''1'', form_number = ''5'', form_name = ''Lee'', form_mbti = [], form_notes = []\<rparr>
        (handleAddStudent codeUnitCompare 1
           \<lparr>form_class = ''3'', form_number = ''12'', form_name = ''Kim'', form_mbti = [], form_notes = []\<rparr>
           [])) = [''Lee'', ''Kim''] \<and>
   roster_sorted codeUnitCompare
     (handleUpdateStudent codeUnitCompare
        \<lparr>student_id = ''1'', class_label = ''0'', number = ''9'', name = ''Kim'', mbti = [],
         student_notes = [], counsels = []\<rparr>
        [])"
proof -
  have c: "consistent codeUnitCompare" by (rule consistent_codeUnitCompare)
  have e: "map name
     (handleAddStudent codeUnitCompare 2
        \<lparr>form_class = ''1'', form_number = ''5'', form_name = ''Lee'', form_mbti = [], form_notes = []\<rparr>
        (handleAddStudent codeUnitCompare 1
           \<lparr>form_class = ''3'', form_number = ''12'', form_name = ''Kim'', form_mbti = [], form_notes = []\<rparr>
           [])) = [''Lee'', ''Kim'']"
    by (simp add: handleAddStudent_def newStudent_def compareStudents_def sortKey_def)
  show ?thesis
    using c e
      sorted_after_register_and_update [OF c, where now = 2
        and f = "\<lparr>form_class = ''1'', form_number = ''5'', form_name = ''Lee'', form_mbti = [], form_notes = []\<rparr>"
        and prev = "handleAddStudent codeUnitCompare 1
           \<lparr>form_class = ''3'', form_number = ''12'', form_name = ''Kim'', form_mbti = [], form_notes = []\<rparr>
           []"
        and st = "\<lparr>student_id = ''1'', class_label = ''0'', number = ''9'', name = ''Kim'', mbti = [],
         student_notes = [], counsels = []\<rparr>"]
      sorted_after_register_and_update [OF c, where prev = "[]"
        and st = "\<lparr>student_id = ''1'', class_label = ''0'', number = ''9'', name = ''Kim'', mbti = [],
         student_notes = [], counsels = []\<rparr>"]
    by blast
qed

theorem sorted_by_pair_counterexample:
  "\<not> spec_sorted_by_pair codeUnitCompare
     (handleAddStudent codeUnitCompare 2
        \<lparr>form_class = ''1 '', form_number = ''2'', form_name = ''B'', form_mbti = [], form_notes = []\<rparr>
        (handleAddStudent codeUnitCompare 1
           \<lparr>form_class = ''1'', form_number = ''5'', form_name = ''A'', form_mbti = [], form_notes = []\<rparr>
           []))"
  by (simp add: spec_sorted_by_pair_def spec_pairCompare_def handleAddStudent_def newStudent_def
      compareStudents_def sortKey_def)

text \<open>
  C6. For every roster the operations of the store can produce and every student value
  whose id matches no student of it, \<open>handleUpdateStudent\<close> returns the same roster,
  record for record and in the same order.
\<close>

theorem update_unknown_id_unchanged:
  assumes "consistent cmp" and "roster_reachable cmp ss"
    and "student_id st \<notin> student_id ` set ss"
  shows "handleUpdateStudent cmp st ss = ss"
proof -
  have "roster_sorted cmp ss" using assms(1,2) by (rule roster_reachable_sorted)
  then have "array_sort (compareStudents cmp) ss = ss"
    unfolding roster_sorted_def by (rule array_sort_sorted_id)
  then show ?thesis
    by (simp add: handleUpdateStudent_def map_replace_absent [OF assms(3)])
qed

theorem update_unknown_id_unchanged_witness:
  "consistent codeUnitCompare \<and>
   roster_reachable codeUnitCompare
     (handleAddStudent codeUnitCompare 1
        \<lparr>form_class = ''3'', form_number = ''12'', form_name = ''Kim'', form_mbti = [], form_notes = []\<rparr>
        []) \<and>
   handleUpdateStudent codeUnitCompare
     \<lparr>student_id = ''99'', class_label = ''1'', number = ''1'', name = ''Lee'', mbti = [],
      student_notes = [], counsels = []\<rparr>
     (handleAddStudent codeUnitCompare 1
        \<lparr>form_class = ''3'', form_number = ''12'', form_name = ''Kim'', form_mbti = [], form_notes = []\<rparr>
        []) =
   handleAddStudent codeUnitCompare 1
     \<lparr>form_class = ''3'', form_number = ''12'', form_name = ''Kim'', form_mbti = [], form_notes = []\<rparr>
     []"
proof -
  have c: "consistent codeUnitCompare" by (rule consistent_codeUnitCompare)
  have r: "roster_reachable codeUnitCompare
     (handleAddStudent codeUnitCompare 1
        \<lparr>form_class = ''3'', form_number = ''12'', form_name = ''Kim'', form_mbti = [], form_notes = []\<rparr>
        [])"
    by (rule reach_add) (rule reach_empty)
  have n: "student_id \<lparr>student_id = ''99'', class_label = ''1'', number = ''1'', name = ''Lee'',
        mbti = [], student_notes = [], counsels = []\<rparr>
      \<notin> student_id ` set (handleAddStudent codeUnitCompare 1
        \<lparr>form_class = ''3'', form_number = ''12'', form_name = ''Kim'', form_mbti = [], form_notes = []\<rparr>
        [])"
    by (simp add: handleAddStudent_def newStudent_def toString_1)
  show ?thesis
    using c r update_unknown_id_unchanged [OF c r n] by blast
qed

text \<open>
  C5. After \<open>prependSession\<close>, every student with the given id has the new counsel at
  index 0 of its counsels, followed by its earlier counsels in their order, and is
  otherwise unchanged; every other student is unchanged; when no student has the id the
  roster is unchanged.
\<close>

theorem prependSession_head_and_order:
  "length (prependSession sid c ss) = length ss \<and>
   (\<forall>i < length ss.
      (student_id (ss ! i) = sid \<longrightarrow>
         counsels (prependSession sid c ss ! i) ! 0 = c \<and>
         drop 1 (counsels (prependSession sid c ss ! i)) = counsels (ss ! i) \<and>
         (prependSession sid c ss ! i)\<lparr>counsels := counsels (ss ! i)\<rparr> = ss ! i) \<and>
      (student_id (ss ! i) \<noteq> sid \<longrightarrow> prependSession sid c ss ! i = ss ! i)) \<and>
   (sid \<notin> student_id ` set ss \<longrightarrow> prependSession sid c ss = ss)"
proof -
  have "sid \<notin> student_id ` set ss \<Longrightarrow> prependSession sid c ss = ss"
    unfolding prependSession_def by (induction ss) auto
  then show ?thesis
    by (auto simp: prependSession_def)
qed

theorem prependSession_head_and_order_witness:
  "counsels (prependSession ''1''
      \<lparr>counsel_id = ''8'', date = ''d2'', audio = None, transcription = JStr ''t2'',
       feedback = JStr ''f2'', reflectionImage = None, educationalNotes = None\<rparr>
      [\<lparr>student_id = ''1'', class_label = ''3'', number = ''12'', name = ''Kim'', mbti = [],
        student_notes = [],
        counsels = [\<lparr>counsel_id = ''7'', date = ''d1'', audio = None, transcription = JStr ''t1'',
                     feedback = JStr ''f1'', reflectionImage = None, educationalNotes = None\<rparr>]\<rparr>] ! 0) ! 0
     = \<lparr>counsel_id = ''8'', date = ''d2'', audio = None, transcription = JStr ''t2'',
        feedback = JStr ''f2'', reflectionImage = None, educationalNotes = None\<rparr> \<and>
   drop 1 (counsels (prependSession ''1''
      \<lparr>counsel_id = ''8'', date = ''d2'', audio = None, transcription = JStr ''t2'',
       feedback = JStr ''f2'', reflectionImage = None, educationalNotes = None\<rparr>
      [\<lparr>student_id = ''1'', class_label = ''3'', number = ''12'', name = ''Kim'', mbti = [],
        student_notes = [],
        counsels = [\<lparr>counsel_id = ''7'', date = ''d1'', audio = None, transcription = JStr ''t1'',
                     feedback = JStr ''f1'', reflectionImage = None, educationalNotes = None\<rparr>]\<rparr>] ! 0))
     = [\<lparr>counsel_id = ''7'', date = ''d1'', audio = None, transcription = JStr ''t1'',
         feedback = JStr ''f1'', reflectionImage = None, educationalNotes = None\<rparr>]"
  using prependSession_head_and_order [of "''1''"
      "\<lparr>counsel_id = ''8'', date = ''d2'', audio = None, transcription = JStr ''t2'',
       feedback = JStr ''f2'', reflectionImage = None, educationalNotes = None\<rparr>"
      "[\<lparr>student_id = ''1'', class_label = ''3'', number = ''12'', name = ''Kim'', mbti = [],
        student_notes = [],
        counsels = [\<lparr>counsel_id = ''7'', date = ''d1'', audio = None, transcription = JStr ''t1'',
                     feedback = JStr ''f1'', reflectionImage = None, educationalNotes = None\<rparr>]\<rparr>]"]
  by simp

text \<open>
  C7. In the education view, \<open>handleStudentClick\<close> with any student id, or with none,
  leaves no counsel selected: the selected counsel id is cleared and no counsel resolves.
\<close>

theorem student_click_clears_session:
  "selectedCounselId (handleStudentClick sid v) = None \<and>
   ev_selectedStudentId (handleStudentClick sid v) = sid \<and>
   selectedCounsel studs (handleStudentClick sid v) = None"
  by (simp add: handleStudentClick_def selectedCounsel_def split: option.splits)

text \<open>
  C3, as amended. Every identifier, of a student or of a counsel, is the decimal rendering
  of the clock reading at its creation. Identifiers issued at clock readings \<open>t1 < t2\<close>
  are distinct, and read back as numbers they are in the order of the readings. Two
  entities created at the same reading receive the same identifier: the counterexample
  registers two students at reading 1000.
\<close>

theorem identifiers_follow_clock:
  "student_id (newStudent t1 f) = toString t1 \<and>
   counsel_id (newCounsel t1 l b x y) = toString t1 \<and>
   (t1 < t2 \<longrightarrow> toString t1 \<noteq> toString t2 \<and> idNumber (toString t1) < idNumber (toString t2))"
  using toString_inj [of t1 t2]
  by (auto simp: newStudent_def newCounsel_def idNumber_toString)

theorem identifiers_follow_clock_witness:
  "(1000 :: int) < 1001 \<and>
   student_id (newStudent 1000
     \<lparr>form_class = ''3'', form_number = ''12'', form_name = ''Kim'', form_mbti = [], form_notes = []\<rparr>)
     = toString 1000 \<and>
   toString 1000 \<noteq> toString 1001 \<and>
   idNumber (toString 1000) < idNumber (toString 1001)"
  using identifiers_follow_clock [of 1000
      "\<lparr>form_class = ''3'', form_number = ''12'', form_name = ''Kim'', form_mbti = [], form_notes = []\<rparr>"
      "''d''" "Blob ''audio/webm'' []" "JStr ''t1''" "JStr ''f1''" 1001]
  by simp

theorem identifiers_same_instant_counterexample:
  "\<not> distinct (map student_id
     (handleAddStudent codeUnitCompare 1000
        \<lparr>form_class = ''1'', form_number = ''5'', form_name = ''Lee'', form_mbti = [], form_notes = []\<rparr>
        (handleAddStudent codeUnitCompare 1000
           \<lparr>form_class = ''3'', form_number = ''12'', form_name = ''Kim'', form_mbti = [], form_notes = []\<rparr>
           [])))"
  by (simp add: handleAddStudent_def newStudent_def compareStudents_def sortKey_def)

section \<open>Editing a student\<close>

lemma map_replace_absent_by:
  "student_id e \<notin> student_id ` set ss \<Longrightarrow>
   map (\<lambda>s. if student_id s = student_id e then r else s) ss = ss"
  by (induction ss) auto

lemma mset_map_replace:
  assumes "distinct (map student_id ss)" and "e \<in> set ss"
  shows "mset (map (\<lambda>s. if student_id s = student_id e then r else s) ss)
         = add_mset r (mset ss - {#e#})"
  using assms
proof (induction ss)
  case Nil
  then show ?case by simp
next
  case (Cons a as)
  show ?case
  proof (cases "a = e")
    case True
    then have "student_id e \<notin> student_id ` set as" using Cons.prems(1) by simp
    then have "map (\<lambda>s. if student_id s = student_id e then r else s) as = as"
      by (rule map_replace_absent_by)
    with True show ?thesis by simp
  next
    case False
    then have m: "e \<in> set as" using Cons.prems(2) by simp
    then have d: "student_id a \<noteq> student_id e" using Cons.prems(1) by auto
    have "mset (map (\<lambda>s. if student_id s = student_id e then r else s) as)
          = add_mset r (mset as - {#e#})"
      using Cons.IH Cons.prems(1) m by simp
    with d False m show ?thesis by simp
  qed
qed

lemma editingStudent_Some:
  "editingStudent studs v = Some e \<Longrightarrow> e \<in> set studs"
  by (auto simp: editingStudent_def find_Some_iff split: option.splits)

lemma toString_1000: "toString 1000 = ''1000''"
  by code_simp

lemma distinct_ids_handleAddStudent:
  assumes "distinct (map student_id prev)" and "toString now \<notin> student_id ` set prev"
  shows "distinct (map student_id (handleAddStudent cmp now f prev))"
proof -
  have "mset (map student_id (handleAddStudent cmp now f prev))
        = mset (map student_id (prev @ [newStudent now f]))"
    unfolding handleAddStudent_def by (metis mset_array_sort mset_map)
  moreover have "distinct (map student_id (prev @ [newStudent now f]))"
    using assms by (simp add: newStudent_def)
  ultimately show ?thesis by (metis mset_eq_imp_distinct_iff)
qed

lemma ids_prependSession: "map student_id (prependSession sid c ss) = map student_id ss"
  by (induction ss) (auto simp: prependSession_def)

lemma ids_handleSaveEducationData:
  "map student_id (handleSaveEducationData sid cid img nts ss) = map student_id ss"
  by (induction ss) (auto simp: handleSaveEducationData_def)

lemma pairs_to_ids:
  assumes "mset (map (\<lambda>s. (student_id s, counsels s)) (xs :: student list))
           = mset (map (\<lambda>s. (student_id s, counsels s)) ys)"
  shows "mset (map student_id xs) = mset (map student_id ys)"
proof -
  have "image_mset fst (mset (map (\<lambda>s. (student_id s, counsels s)) xs))
        = image_mset fst (mset (map (\<lambda>s. (student_id s, counsels s)) ys))"
    using assms by simp
  then show ?thesis by (simp add: image_mset.compositionality comp_def)
qed

text \<open>
  C9, as amended. When the register view is editing a student \<open>e\<close> (the first student
  of the roster with the selected id), the record \<open>handleSubmit\<close> hands to the store
  has the id and the counsels of \<open>e\<close>; the roster is either unchanged (a required field
  is empty) or a rearrangement of the old one in which every student carrying the id of
  \<open>e\<close> is replaced by that record and all others are untouched. When the ids of the
  roster are distinct, the pairs (id, counsels) of the roster are the same before and
  after, and the ids stay distinct: no student's id or counsels change. When two students
  share an id the claim fails: the counterexample registers Kim and Lee at the same clock
  reading, Kim having a counsel; editing the id resolves to Lee and the update overwrites
  both, so Kim's counsel is gone.
\<close>

theorem edit_keeps_id_and_counsels:
  assumes "editingStudent studs v = Some e"
  shows "student_id (mergeForm e (formData v)) = student_id e \<and>
         counsels (mergeForm e (formData v)) = counsels e \<and>
         (fst (handleSubmit cmp now studs v) = studs \<or>
          mset (fst (handleSubmit cmp now studs v))
            = mset (map (\<lambda>s. if student_id s = student_id e then mergeForm e (formData v) else s)
                      studs)) \<and>
         (distinct (map student_id studs) \<longrightarrow>
            mset (map (\<lambda>s. (student_id s, counsels s)) (fst (handleSubmit cmp now studs v)))
              = mset (map (\<lambda>s. (student_id s, counsels s)) studs) \<and>
            distinct (map student_id (fst (handleSubmit cmp now studs v))))"
proof -
  define g :: "student \<Rightarrow> string \<times> counsel list" where "g = (\<lambda>s. (student_id s, counsels s))"
  let ?r = "mergeForm e (formData v)"
  have m: "e \<in> set studs" using assms by (rule editingStudent_Some)
  have r: "student_id ?r = student_id e \<and> counsels ?r = counsels e"
    by (simp add: mergeForm_def)
  have step: "fst (handleSubmit cmp now studs v) = studs \<or>
      mset (fst (handleSubmit cmp now studs v))
        = mset (map (\<lambda>s. if student_id s = student_id e then ?r else s) studs)"
  proof (cases "form_class (formData v) = [] \<or> form_number (formData v) = [] \<or> form_name (formData v) = []")
    case True
    then show ?thesis by (simp add: handleSubmit_def)
  next
    case False
    then have "fst (handleSubmit cmp now studs v)
        = array_sort (compareStudents cmp)
            (map (\<lambda>s. if student_id s = student_id e then ?r else s) studs)"
      using assms r by (simp add: handleSubmit_def handleUpdateStudent_def)
    then show ?thesis by (simp add: mset_array_sort)
  qed
  have pairs: "mset (map g (fst (handleSubmit cmp now studs v))) = mset (map g studs)"
    if d: "distinct (map student_id studs)"
  proof -
    from step show ?thesis
    proof
      assume "fst (handleSubmit cmp now studs v) = studs"
      then show ?thesis by simp
    next
      assume "mset (fst (handleSubmit cmp now studs v))
        = mset (map (\<lambda>s. if student_id s = student_id e then ?r else s) studs)"
      then have eq: "mset (fst (handleSubmit cmp now studs v)) = add_mset ?r (mset studs - {#e#})"
        using mset_map_replace [OF d m] by simp
      have "mset (map g (fst (handleSubmit cmp now studs v)))
          = image_mset g (add_mset ?r (mset studs - {#e#}))"
        using eq by (metis mset_map)
      also have "\<dots> = image_mset g (add_mset e (mset studs - {#e#}))"
        using r by (simp add: g_def)
      also have "\<dots> = image_mset g (mset studs)"
        using m by simp
      finally show ?thesis by simp
    qed
  qed
  have dist: "distinct (map student_id (fst (handleSubmit cmp now studs v)))"
    if d: "distinct (map student_id studs)"
  proof -
    have "mset (map student_id (fst (handleSubmit cmp now studs v))) = mset (map student_id studs)"
      using pairs [OF d] unfolding g_def by (rule pairs_to_ids)
    then show ?thesis using d by (metis mset_eq_imp_distinct_iff)
  qed
  from r step pairs dist show ?thesis by (simp add: g_def)
qed

theorem edit_keeps_id_and_counsels_witness:
  "distinct (map student_id
     [\<lparr>student_id = ''1'', class_label = ''3'', number = ''12'', name = ''Kim'', mbti = [],
       student_notes = [],
       counsels = [\<lparr>counsel_id = ''7'', date = ''d1'', audio = None, transcription = JStr ''t1'',
                    feedback = JStr ''f1'', reflectionImage = None, educationalNotes = None\<rparr>]\<rparr>]) \<and>
   mset (map (\<lambda>s. (student_id s, counsels s))
     (fst (handleSubmit codeUnitCompare 5
        [\<lparr>student_id = ''1'', class_label = ''3'', number = ''12'', name = ''Kim'', mbti = [],
          student_notes = [],
          counsels = [\<lparr>counsel_id = ''7'', date = ''d1'', audio = None, transcription = JStr ''t1'',
                       feedback = JStr ''f1'', reflectionImage = None, educationalNotes = None\<rparr>]\<rparr>]
        \<lparr>formData = \<lparr>form_class = ''2'', form_number = ''4'', form_name = ''Kim'',
                      form_mbti = ''INTP'', form_notes = ''quiet''\<rparr>,
         editingStudentId = Some ''1''\<rparr>)))
   = {#(''1'', [\<lparr>counsel_id = ''7'', date = ''d1'', audio = None, transcription = JStr ''t1'',
                 feedback = JStr ''f1'', reflectionImage = None, educationalNotes = None\<rparr>])#} \<and>
   map class_label
     (fst (handleSubmit codeUnitCompare 5
        [\<lparr>student_id = ''1'', class_label = ''3'', number = ''12'', name = ''Kim'', mbti = [],
          student_notes = [],
          counsels = [\<lparr>counsel_id = ''7'', date = ''d1'', audio = None, transcription = JStr ''t1'',
                       feedback = JStr ''f1'', reflectionImage = None, educationalNotes = None\<rparr>]\<rparr>]
        \<lparr>formData = \<lparr>form_class = ''2'', form_number = ''4'', form_name = ''Kim'',
                      form_mbti = ''INTP'', form_notes = ''quiet''\<rparr>,
         editingStudentId = Some ''1''\<rparr>)) = [''2'']"
proof -
  let ?kim = "\<lparr>student_id = ''1'', class_label = ''3'', number = ''12'', name = ''Kim'', mbti = [],
       student_notes = [],
       counsels = [\<lparr>counsel_id = ''7'', date = ''d1'', audio = None, transcription = JStr ''t1'',
                    feedback = JStr ''f1'', reflectionImage = None, educationalNotes = None\<rparr>]\<rparr>"
  let ?v = "\<lparr>formData = \<lparr>form_class = ''2'', form_number = ''4'', form_name = ''Kim'',
                      form_mbti = ''INTP'', form_notes = ''quiet''\<rparr>,
         editingStudentId = Some ''1''\<rparr>"
  have d: "distinct (map student_id [?kim])" by simp
  have e: "editingStudent [?kim] ?v = Some ?kim" by (simp add: editingStudent_def)
  have c: "map class_label (fst (handleSubmit codeUnitCompare 5 [?kim] ?v)) = [''2'']"
    by (simp add: handleSubmit_def editingStudent_def handleUpdateStudent_def mergeForm_def)
  show ?thesis
    using d c edit_keeps_id_and_counsels [OF e, of codeUnitCompare 5] by simp
qed

theorem edit_shared_id_counterexample:
  "map counsels
     (handleAddStudent codeUnitCompare 1000
        \<lparr>form_class = ''1'', form_number = ''5'', form_name = ''Lee'', form_mbti = [], form_notes = []\<rparr>
        (prependSession ''1000''
           \<lparr>counsel_id = ''7'', date = ''d1'', audio = None, transcription = JStr ''t1'',
            feedback = JStr ''f1'', reflectionImage = None, educationalNotes = None\<rparr>
           (handleAddStudent codeUnitCompare 1000
              \<lparr>form_class = ''3'', form_number = ''12'', form_name = ''Kim'', form_mbti = [],
               form_notes = []\<rparr>
              [])))
   = [[], [\<lparr>counsel_id = ''7'', date = ''d1'', audio = None, transcription = JStr ''t1'',
            feedback = JStr ''f1'', reflectionImage = None, educationalNotes = None\<rparr>]] \<and>
   map counsels
     (fst (handleSubmit codeUnitCompare 2000
        (handleAddStudent codeUnitCompare 1000
           \<lparr>form_class = ''1'', form_number = ''5'', form_name = ''Lee'', form_mbti = [], form_notes = []\<rparr>
           (prependSession ''1000''
              \<lparr>counsel_id = ''7'', date = ''d1'', audio = None, transcription = JStr ''t1'',
               feedback = JStr ''f1'', reflectionImage = None, educationalNotes = None\<rparr>
              (handleAddStudent codeUnitCompare 1000
                 \<lparr>form_class = ''3'', form_number = ''12'', form_name = ''Kim'', form_mbti = [],
                  form_notes = []\<rparr>
                 [])))
        (handleStudentSelect
           (handleAddStudent codeUnitCompare 1000
              \<lparr>form_class = ''1'', form_number = ''5'', form_name = ''Lee'', form_mbti = [], form_notes = []\<rparr>
              (prependSession ''1000''
                 \<lparr>counsel_id = ''7'', date = ''d1'', audio = None, transcription = JStr ''t1'',
                  feedback = JStr ''f1'', reflectionImage = None, educationalNotes = None\<rparr>
                 (handleAddStudent codeUnitCompare 1000
                    \<lparr>form_class = ''3'', form_number = ''12'', form_name = ''Kim'', form_mbti = [],
                     form_notes = []\<rparr>
                    [])))
           ''1000''
           \<lparr>formData = emptyForm, editingStudentId = None\<rparr>)))
   = [[], []]"
proof -
  let ?c = "\<lparr>counsel_id = ''7'', date = ''d1'', audio = None, transcription = JStr ''t1'',
            feedback = JStr ''f1'', reflectionImage = None, educationalNotes = None\<rparr>"
  let ?lee = "\<lparr>student_id = ''1000'', class_label = ''1'', number = ''5'', name = ''Lee'',
              mbti = [], student_notes = [], counsels = []\<rparr>"
  let ?kim = "\<lparr>student_id = ''1000'', class_label = ''3'', number = ''12'', name = ''Kim'',
              mbti = [], student_notes = [], counsels = [?c]\<rparr>"
  have roster: "handleAddStudent codeUnitCompare 1000
        \<lparr>form_class = ''1'', form_number = ''5'', form_name = ''Lee'', form_mbti = [], form_notes = []\<rparr>
        (prependSession ''1000'' ?c
           (handleAddStudent codeUnitCompare 1000
              \<lparr>form_class = ''3'', form_number = ''12'', form_name = ''Kim'', form_mbti = [],
               form_notes = []\<rparr>
              [])) = [?lee, ?kim]"
    by (simp add: handleAddStudent_def newStudent_def prependSession_def compareStudents_def
        sortKey_def toString_1000)
  have after: "fst (handleSubmit codeUnitCompare 2000 [?lee, ?kim]
        (handleStudentSelect [?lee, ?kim] ''1000'' \<lparr>formData = emptyForm, editingStudentId = None\<rparr>))
      = [?lee, ?lee]"
    by (simp add: handleSubmit_def handleStudentSelect_def editingStudent_def
        handleUpdateStudent_def mergeForm_def compareStudents_def sortKey_def)
  show ?thesis
    unfolding roster after by simp
qed

section \<open>The pipeline\<close>

text \<open>
  The failures the \<open>try\<close> block detects: a failed encoding or request, a response text
  that is not JSON, and the parsed value \<open>null\<close>. Nothing is written, the alert is
  raised and the audio is kept.
\<close>

lemma pipeline_failure_no_write:
  assumes "audioBlob s = Some b" and "selectedStudentId s = Some sid" and "sid \<noteq> []"
    and "outcome = EncodeFailed \<or> outcome = RequestFailed \<or> outcome = Unparsable \<or> outcome = Parsed JNull"
  shows "handleTranscribeAndFeedback outcome now ls s = (s\<lparr>isLoading := False\<rparr>, [AnalysisFailed])"
  using assms
  by (auto simp: handleTranscribeAndFeedback_def pipelineBody_def split: option.splits)

text \<open>
  What a run does for each outcome. When the parsed value is not \<open>null\<close>, whatever
  properties it has, the counsel is prepended, no alert is raised and the pending audio
  is cleared.
\<close>

lemma pipeline_parsed_clears_audio:
  assumes "audioBlob s = Some b" and "selectedStudentId s = Some sid" and "sid \<noteq> []"
    and "find (\<lambda>x. student_id x = sid) (students s) = Some st"
    and "getProperty j ''transcription'' = Inr t" and "getProperty j ''feedback'' = Inr f"
  shows "handleTranscribeAndFeedback (Parsed j) now ls s
         = (s\<lparr> students := prependSession sid (newCounsel now ls b t f) (students s),
                audioBlob := None, isLoading := False \<rparr>, [])"
  using assms by (simp add: handleTranscribeAndFeedback_def pipelineBody_def)

lemma getProperty_total:
  "j \<noteq> JNull \<Longrightarrow> j \<noteq> JUndefined \<Longrightarrow> \<exists>v. getProperty j k = Inr v"
  by (cases j) auto

lemma pipeline_unknown_student_no_write:
  assumes "audioBlob s = Some b" and "selectedStudentId s = Some sid" and "sid \<noteq> []"
    and "find (\<lambda>x. student_id x = sid) (students s) = None"
  shows "handleTranscribeAndFeedback outcome now ls s = (s\<lparr>isLoading := False\<rparr>, [AnalysisFailed])"
  using assms by (simp add: handleTranscribeAndFeedback_def pipelineBody_def)

text \<open>
  C10. The claim asks that the pending audio is cleared after a successful run and left
  in place after a failed one. The runs in which the \<open>try\<close> block throws do leave it in
  place (\<open>pipeline_failure_no_write\<close>, \<open>pipeline_unknown_student_no_write\<close>), but a
  response without the \<open>feedback\<close> field is not detected as a failure: the audio is
  cleared, and a further call with that capture returns at the guard, so the run cannot
  be retried with the same audio.
\<close>

theorem missing_feedback_discards_audio:
  "audioBlob (fst (handleTranscribeAndFeedback
       (Parsed (JObj [(''transcription'', JStr ''t1'')])) 5 ''d''
       (initialApp\<lparr> students := [\<lparr>student_id = ''1'', class_label = ''3'', number = ''12'',
                                   name = ''Kim'', mbti = [], student_notes = [], counsels = []\<rparr>],
                     selectedStudentId := Some ''1'',
                     audioBlob := Some (Blob ''audio/webm'' [1, 2, 3]) \<rparr>))) = None \<and>
   handleTranscribeAndFeedback
     (Parsed (JObj [(''transcription'', JStr ''t1''), (''feedback'', JStr ''f1'')])) 6 ''e''
     (fst (handleTranscribeAndFeedback
       (Parsed (JObj [(''transcription'', JStr ''t1'')])) 5 ''d''
       (initialApp\<lparr> students := [\<lparr>student_id = ''1'', class_label = ''3'', number = ''12'',
                                   name = ''Kim'', mbti = [], student_notes = [], counsels = []\<rparr>],
                     selectedStudentId := Some ''1'',
                     audioBlob := Some (Blob ''audio/webm'' [1, 2, 3]) \<rparr>)))
   = (fst (handleTranscribeAndFeedback
       (Parsed (JObj [(''transcription'', JStr ''t1'')])) 5 ''d''
       (initialApp\<lparr> students := [\<lparr>student_id = ''1'', class_label = ''3'', number = ''12'',
                                   name = ''Kim'', mbti = [], student_notes = [], counsels = []\<rparr>],
                     selectedStudentId := Some ''1'',
                     audioBlob := Some (Blob ''audio/webm'' [1, 2, 3]) \<rparr>)), [])"
proof -
  let ?s = "initialApp\<lparr> students := [\<lparr>student_id = ''1'', class_label = ''3'', number = ''12'',
                                   name = ''Kim'', mbti = [], student_notes = [], counsels = []\<rparr>],
                     selectedStudentId := Some ''1'',
                     audioBlob := Some (Blob ''audio/webm'' [1, 2, 3]) \<rparr>"
  have a: "audioBlob (fst (handleTranscribeAndFeedback
       (Parsed (JObj [(''transcription'', JStr ''t1'')])) 5 ''d'' ?s)) = None"
    by (simp add: handleTranscribeAndFeedback_def pipelineBody_def)
  have g: "handleTranscribeAndFeedback outcome now ls s' = (s', [])" if "audioBlob s' = None"
    for outcome now ls s'
    using that by (simp add: handleTranscribeAndFeedback_def)
  from a g [OF a] show ?thesis by blast
qed

lemma toString_5: "toString 5 = ''5''"
  by code_simp

text \<open>
  C1. The claim asks that a response without the \<open>feedback\<close> field creates no session,
  raises the error and keeps the audio. The code does not check the fields: with the
  parsed response \<open>{transcription: "t1"}\<close> the run raises no alert, prepends a counsel
  whose feedback is \<open>undefined\<close> and clears the audio.
\<close>

theorem missing_feedback_creates_session:
  "handleTranscribeAndFeedback (Parsed (JObj [(''transcription'', JStr ''t1'')])) 5 ''d''
     (initialApp\<lparr> students := [\<lparr>student_id = ''1'', class_label = ''3'', number = ''12'',
                                 name = ''Kim'', mbti = [], student_notes = [], counsels = []\<rparr>],
                   selectedStudentId := Some ''1'',
                   audioBlob := Some (Blob ''audio/webm'' [1, 2, 3]) \<rparr>)
   = (initialApp\<lparr> students := [\<lparr>student_id = ''1'', class_label = ''3'', number = ''12'',
                                 name = ''Kim'', mbti = [], student_notes = [],
                                 counsels = [\<lparr>counsel_id = ''5'', date = ''d'',
                                              audio = Some (Blob ''audio/webm'' [1, 2, 3]),
                                              transcription = JStr ''t1'', feedback = JUndefined,
                                              reflectionImage = None, educationalNotes = None\<rparr>]\<rparr>],
                   selectedStudentId := Some ''1'',
                   audioBlob := None \<rparr>, [])"
  by (simp add: handleTranscribeAndFeedback_def pipelineBody_def prependSession_def newCounsel_def
      initialApp_def toString_5)

section \<open>The recorder\<close>

text \<open>Stopping while no capture is active changes nothing and delivers no payload.\<close>

lemma stopRecording_idle:
  assumes "activeCaptures s = 0"
  shows "stopRecording recorded s = s"
proof (cases "mediaRecorder s")
  case None
  then show ?thesis by (simp add: stopRecording_def)
next
  case (Some i)
  have "\<not> (i < length (recorders s) \<and> recorder_state (recorders s ! i) = Recording)"
  proof
    assume h: "i < length (recorders s) \<and> recorder_state (recorders s ! i) = Recording"
    then have "recorders s ! i \<in> set (recorders s)" by simp
    with h assms show False
      by (auto simp: activeCaptures_def filter_empty_conv)
  qed
  with Some show ?thesis by (auto simp: stopRecording_def)
qed

text \<open>
  C8. The claim asks that a start while recording is refused, so that at most one capture
  is active. \<open>startRecording\<close> has no check of its own; the log view hides the start
  button while \<open>isRecording\<close> is true, but \<open>isRecording\<close> becomes true only after
  \<open>getUserMedia\<close> has settled. Two clicks on the start button before the first call
  settles, both granted, give two recorders that record; the stop button then stops the
  second only, and the first stays active with \<open>isRecording\<close> false.
\<close>

theorem double_start_two_captures:
  "ui_reachable codeUnitCompare
     \<lparr> students = [\<lparr>student_id = ''1000'', class_label = ''3'', number = ''12'', name = ''Kim'',
                     mbti = [], student_notes = [], counsels = []\<rparr>],
       selectedStudentId = Some ''1000'', expandedCounselId = None,
       isRecording = True, audioBlob = None, isLoading = False,
       recorders = [\<lparr>recorder_state = Recording, stream_live = True\<rparr>,
                    \<lparr>recorder_state = Recording, stream_live = True\<rparr>],
       mediaRecorder = Some 1, audioChunks = [] \<rparr> 0 \<and>
   activeCaptures
     \<lparr> students = [\<lparr>student_id = ''1000'', class_label = ''3'', number = ''12'', name = ''Kim'',
                     mbti = [], student_notes = [], counsels = []\<rparr>],
       selectedStudentId = Some ''1000'', expandedCounselId = None,
       isRecording = True, audioBlob = None, isLoading = False,
       recorders = [\<lparr>recorder_state = Recording, stream_live = True\<rparr>,
                    \<lparr>recorder_state = Recording, stream_live = True\<rparr>],
       mediaRecorder = Some 1, audioChunks = [] \<rparr> = 2 \<and>
   stopRecording (Blob ''audio/webm'' [1, 2])
     \<lparr> students = [\<lparr>student_id = ''1000'', class_label = ''3'', number = ''12'', name = ''Kim'',
                     mbti = [], student_notes = [], counsels = []\<rparr>],
       selectedStudentId = Some ''1000'', expandedCounselId = None,
       isRecording = True, audioBlob = None, isLoading = False,
       recorders = [\<lparr>recorder_state = Recording, stream_live = True\<rparr>,
                    \<lparr>recorder_state = Recording, stream_live = True\<rparr>],
       mediaRecorder = Some 1, audioChunks = [] \<rparr>
   = \<lparr> students = [\<lparr>student_id = ''1000'', class_label = ''3'', number = ''12'', name = ''Kim'',
                     mbti = [], student_notes = [], counsels = []\<rparr>],
       selectedStudentId = Some ''1000'', expandedCounselId = None,
       isRecording = False, audioBlob = Some (Blob ''audio/webm'' [1, 2]), isLoading = False,
       recorders = [\<lparr>recorder_state = Recording, stream_live = True\<rparr>,
                    \<lparr>recorder_state = Inactive, stream_live = False\<rparr>],
       mediaRecorder = Some 1, audioChunks = [Blob ''audio/webm'' [1, 2]] \<rparr>"
proof -
  let ?f = "\<lparr>form_class = ''3'', form_number = ''12'', form_name = ''Kim'', form_mbti = [],
            form_notes = []\<rparr>"
  let ?kim = "\<lparr>student_id = ''1000'', class_label = ''3'', number = ''12'', name = ''Kim'',
                     mbti = [], student_notes = [], counsels = []\<rparr>"
  let ?s1 = "initialApp\<lparr>students := handleAddStudent codeUnitCompare 1000 ?f (students initialApp)\<rparr>"
  let ?s2 = "?s1\<lparr>selectedStudentId := Some (student_id ?kim), expandedCounselId := None\<rparr>"
  let ?s3 = "startRecording Granted ?s2"
  let ?s4 = "startRecording Granted ?s3"
  have roster: "students ?s1 = [?kim]"
    by (simp add: initialApp_def handleAddStudent_def newStudent_def toString_1000)
  have r1: "ui_reachable codeUnitCompare ?s1 0"
    by (rule ui_register [OF ui_init]) simp_all
  have m: "?kim \<in> set (students ?s1)"
    by (simp only: roster) simp
  have r2: "ui_reachable codeUnitCompare ?s2 0"
    using r1 m by (rule ui_select)
  have en: "startButtonEnabled ?s2"
    by (simp add: startButtonEnabled_def selectedStudent_def initialApp_def handleAddStudent_def
        newStudent_def toString_1000)
  have c1: "ui_reachable codeUnitCompare ?s2 (Suc 0)"
    using r2 en by (rule ui_click_start)
  have c2: "ui_reachable codeUnitCompare ?s2 (Suc (Suc 0))"
    using c1 en by (rule ui_click_start)
  have r3: "ui_reachable codeUnitCompare ?s3 (Suc 0)"
    using c2 by (rule ui_resume_start)
  have r4: "ui_reachable codeUnitCompare ?s4 0"
    using r3 by (rule ui_resume_start)
  have eq: "?s4 =
     \<lparr> students = [?kim],
       selectedStudentId = Some ''1000'', expandedCounselId = None,
       isRecording = True, audioBlob = None, isLoading = False,
       recorders = [\<lparr>recorder_state = Recording, stream_live = True\<rparr>,
                    \<lparr>recorder_state = Recording, stream_live = True\<rparr>],
       mediaRecorder = Some 1, audioChunks = [] \<rparr>"
    by (simp add: startRecording_def initialApp_def handleAddStudent_def newStudent_def toString_1000)
  have reach: "ui_reachable codeUnitCompare
     \<lparr> students = [?kim],
       selectedStudentId = Some ''1000'', expandedCounselId = None,
       isRecording = True, audioBlob = None, isLoading = False,
       recorders = [\<lparr>recorder_state = Recording, stream_live = True\<rparr>,
                    \<lparr>recorder_state = Recording, stream_live = True\<rparr>],
       mediaRecorder = Some 1, audioChunks = [] \<rparr> 0"
    using r4 unfolding eq .
  show ?thesis
    using reach by (simp add: activeCaptures_def stopRecording_def)
qed

section \<open>Annotations\<close>






lemma selectedCounsel_ids:
  "selectedCounsel studs v = Some c \<Longrightarrow>
   \<exists>sid cid. ev_selectedStudentId v = Some sid \<and> selectedCounselId v = Some cid"
  by (auto simp: selectedCounsel_def split: option.splits)




end
